theory Spec2Isabelle
  imports Main
begin

section \<open>Values, objects and the store\<close>

text \<open>
  The bindings of \<^verbatim>\<open>foundation/binding.js\<close> are JavaScript objects that
  inherit from the object literal \<^verbatim>\<open>SC.Binding\<close> through prototype chains
  built by \<^verbatim>\<open>SC.beget\<close>, and their transform pipelines are arrays that
  several bindings may reach. The model therefore keeps an explicit store: a list of
  cells addressed by position. Property names are the strings of the source.
\<close>

type_synonym addr = nat

text \<open>
  A JavaScript value. Numbers are kept as integers (no claim depends on floating
  point); \<open>JError\<close> is a value for which \<^verbatim>\<open>$type(v) === T_ERROR\<close>;
  \<open>Method n\<close> is the function stored under the name \<open>n\<close> in the
  \<^verbatim>\<open>SC.Binding\<close> literal; \<open>SingleFn p\<close> is the closure that
  \<^verbatim>\<open>single\<close> creates, with the captured placeholder \<open>p\<close>;
  \<open>UserFn i\<close> is a function supplied by a caller.
\<close>

datatype jsval =
    Undefined
  | Null
  | JBool bool
  | JNum int
  | JStr string
  | JError string
  | Ref addr
  | Method string
  | SingleFn jsval
  | UserFn nat

text \<open>
  A cell of the store: an object with its prototype and own properties, an array, or
  an \<^verbatim>\<open>SC.Set\<close> (the change queues hold binding objects only, so its
  members are addresses).
\<close>

datatype cell =
    Obj "addr option" "(string \<times> jsval) list"
  | Arr "jsval list"
  | SetC "addr list"

datatype error = ReferenceError string | TypeError string

text \<open>
  The state every operation threads: the store and the subscriptions held by the
  observer registry \<^verbatim>\<open>SC.Observers\<close>, each one the argument tuple
  (path, handler, context, root) of the \<^verbatim>\<open>addObserver\<close> call that made it.
\<close>

record world =
  heap :: "cell list"
  observers :: "(jsval \<times> jsval \<times> jsval \<times> jsval) list"

text \<open>JavaScript's conversion to boolean, as \<^verbatim>\<open>if (v)\<close> and \<^verbatim>\<open>!v\<close> use it.\<close>

fun truthy :: "jsval \<Rightarrow> bool" where
  "truthy Undefined = False"
| "truthy Null = False"
| "truthy (JBool b) = b"
| "truthy (JNum n) = (n \<noteq> 0)"
| "truthy (JStr s) = (s \<noteq> [])"
| "truthy (JError e) = True"
| "truthy (Ref a) = True"
| "truthy (Method n) = True"
| "truthy (SingleFn p) = True"
| "truthy (UserFn i) = True"

definition cell_at :: "cell list \<Rightarrow> addr \<Rightarrow> cell option" where
  "cell_at h a = (if a < length h then Some (h ! a) else None)"

text \<open>
  Reading the property \<open>k\<close> of the object at \<open>a\<close>: the own property if there
  is one, else the prototype's, else \<^verbatim>\<open>undefined\<close>. A prototype is always
  an older object than the object made from it, which is what makes the walk end.
\<close>

function get_prop :: "cell list \<Rightarrow> addr \<Rightarrow> string \<Rightarrow> jsval" where
  "get_prop h a k =
     (case cell_at h a of
        Some (Obj proto ps) \<Rightarrow>
          (case map_of ps k of
             Some v \<Rightarrow> v
           | None \<Rightarrow>
               (case proto of
                  Some p \<Rightarrow> if p < a then get_prop h p k else Undefined
                | None \<Rightarrow> Undefined))
      | _ \<Rightarrow> Undefined)"
  by pat_completeness auto
termination
  by (relation "measure (\<lambda>(h, a, k). a)") auto

declare get_prop.simps [simp del]

text \<open>The assignment \<^verbatim>\<open>obj.k = v\<close>: it always writes an own property.\<close>

definition upd_alist :: "string \<Rightarrow> jsval \<Rightarrow> (string \<times> jsval) list \<Rightarrow> (string \<times> jsval) list" where
  "upd_alist k v ps = (k, v) # filter (\<lambda>p. fst p \<noteq> k) ps"

definition put_prop :: "addr \<Rightarrow> string \<Rightarrow> jsval \<Rightarrow> cell list \<Rightarrow> cell list" where
  "put_prop a k v h =
     (case cell_at h a of
        Some (Obj proto ps) \<Rightarrow> h[a := Obj proto (upd_alist k v ps)]
      | _ \<Rightarrow> h)"

definition getp :: "world \<Rightarrow> addr \<Rightarrow> string \<Rightarrow> jsval" where
  "getp w a k = get_prop (heap w) a k"

definition setp :: "addr \<Rightarrow> string \<Rightarrow> jsval \<Rightarrow> world \<Rightarrow> world" where
  "setp a k v w = w\<lparr>heap := put_prop a k v (heap w)\<rparr>"

text \<open>
  The member access \<^verbatim>\<open>v.k\<close> on an arbitrary value: it throws on
  \<^verbatim>\<open>undefined\<close> and \<^verbatim>\<open>null\<close>, and none of the other
  non-object values has any of the properties this file reads.
\<close>

definition member :: "cell list \<Rightarrow> jsval \<Rightarrow> string \<Rightarrow> error + jsval" where
  "member h v k =
     (case v of
        Undefined \<Rightarrow> Inl (TypeError ''undefined has no properties'')
      | Null \<Rightarrow> Inl (TypeError ''null has no properties'')
      | Ref a \<Rightarrow> Inr (get_prop h a k)
      | _ \<Rightarrow> Inr Undefined)"

definition alloc :: "cell \<Rightarrow> world \<Rightarrow> world \<times> addr" where
  "alloc c w = (w\<lparr>heap := heap w @ [c]\<rparr>, length (heap w))"

text \<open>The contents of the array a value refers to, if it refers to one.\<close>

definition array_of :: "cell list \<Rightarrow> jsval \<Rightarrow> jsval list option" where
  "array_of h v =
     (case v of
        Ref a \<Rightarrow> (case cell_at h a of Some (Arr xs) \<Rightarrow> Some xs | _ \<Rightarrow> None)
      | _ \<Rightarrow> None)"

text \<open>\<^verbatim>\<open>t.slice()\<close>: a fresh copy of an array; a string is its own slice.\<close>

definition js_slice :: "jsval \<Rightarrow> world \<Rightarrow> world \<times> (error + jsval)" where
  "js_slice t w =
     (case array_of (heap w) t of
        Some xs \<Rightarrow> (let (w1, a) = alloc (Arr xs) w in (w1, Inr (Ref a)))
      | None \<Rightarrow>
          (case t of
             JStr s \<Rightarrow> (w, Inr (JStr s))
           | _ \<Rightarrow> (w, Inl (TypeError ''slice is not a function''))))"

text \<open>\<^verbatim>\<open>t.push(v)\<close>: appends in place to the array \<open>t\<close> refers to.\<close>

definition js_push :: "jsval \<Rightarrow> jsval \<Rightarrow> world \<Rightarrow> world \<times> (error + unit)" where
  "js_push t v w =
     (case t of
        Ref a \<Rightarrow>
          (case cell_at (heap w) a of
             Some (Arr xs) \<Rightarrow> (w\<lparr>heap := (heap w)[a := Arr (xs @ [v])]\<rparr>, Inr ())
           | _ \<Rightarrow> (w, Inl (TypeError ''push is not a function'')))
      | _ \<Rightarrow> (w, Inl (TypeError ''push is not a function'')))"

section \<open>The SC.Binding literal\<close>

definition SC_Binding :: addr where
  "SC_Binding = 0"

definition SC_MULTIPLE_PLACEHOLDER :: jsval where
  "SC_MULTIPLE_PLACEHOLDER = JStr ''@@MULT@@''"

text \<open>
  The properties of the literal \<^verbatim>\<open>SC.Binding = { ... }\<close>, in the order of
  the source. The two change queues are the sets at addresses 1 and 2.
\<close>

definition SC_Binding_literal :: "(string \<times> jsval) list" where
  "SC_Binding_literal =
     [(''beget'', Method ''beget''),
      (''builder'', Method ''builder''),
      (''from'', Method ''from''),
      (''to'', Method ''to''),
      (''connect'', Method ''connect''),
      (''disconnect'', Method ''disconnect''),
      (''fromPropertyDidChange'', Method ''fromPropertyDidChange''),
      (''_changeQueue'', Ref 1),
      (''_alternateChangeQueue'', Ref 2),
      (''flushPendingChanges'', Method ''flushPendingChanges''),
      (''applyBindingValue'', Method ''applyBindingValue''),
      (''_computeBindingTargets'', Method ''_computeBindingTargets''),
      (''oneWay'', Method ''oneWay''),
      (''transform'', Method ''transform''),
      (''resetTransforms'', Method ''resetTransforms''),
      (''noError'', Method ''noError''),
      (''single'', Method ''single''),
      (''notEmpty'', Method ''notEmpty''),
      (''notNull'', Method ''notNull''),
      (''multiple'', Method ''multiple''),
      (''bool'', Method ''bool''),
      (''not'', Method ''not''),
      (''isNull'', Method ''isNull'')]"

text \<open>
  The state once the literal has been evaluated. (The deprecated aliases that the end
  of the file adds to \<^verbatim>\<open>SC.Binding\<close> under capitalised names are left out:
  no method reads them.)
\<close>

definition init_world :: world where
  "init_world = \<lparr>heap = [Obj None SC_Binding_literal, SetC [], SetC []], observers = []\<rparr>"

section \<open>Templating: beget, from, to\<close>

text \<open>
  Modelled from the spec: \<^verbatim>\<open>SC.beget\<close> is defined in
  \<^verbatim>\<open>foundation/object\<close>, which is not part of these sources; it produces
  a new object whose prototype is the receiver.
\<close>

definition SC_beget :: "addr \<Rightarrow> world \<Rightarrow> world \<times> addr" where
  "SC_beget obj w = alloc (Obj (Some obj) []) w"

text \<open>
  \<^verbatim>\<open>beget()\<close> called without an argument, as \<^verbatim>\<open>from\<close>,
  \<^verbatim>\<open>to\<close> and \<^verbatim>\<open>transform\<close> call it: the first two statements
  of \<^verbatim>\<open>beget\<close>, whose third does nothing when \<^verbatim>\<open>fromPath\<close> is
  \<^verbatim>\<open>undefined\<close>.
\<close>

definition beget0 :: "addr \<Rightarrow> world \<Rightarrow> world \<times> addr" where
  "beget0 this w =
     (let (w1, ret) = SC_beget this w
      in (setp ret ''parentBinding'' (Ref this) w1, ret))"

text \<open>
  \<^verbatim>\<open>from(propertyPath, root)\<close>. Its last assignment is written to the
  undeclared name \<^verbatim>\<open>bidning\<close>; evaluating that name throws a
  ReferenceError, after the two assignments before it have taken effect.
\<close>

definition from' :: "jsval \<Rightarrow> jsval \<Rightarrow> addr \<Rightarrow> world \<Rightarrow> world \<times> (error + addr)" where
  "from' propertyPath root this w =
     (if \<not> truthy propertyPath then (w, Inr this)
      else
        (let (w1, binding) = (if this = SC_Binding then beget0 this w else (w, this));
             w2 = setp binding ''_fromPropertyPath'' propertyPath w1;
             w3 = setp binding ''_fromRoot'' root w2
         in (w3, Inl (ReferenceError ''bidning''))))"

definition beget :: "jsval \<Rightarrow> addr \<Rightarrow> world \<Rightarrow> world \<times> (error + addr)" where
  "beget fromPath this w =
     (let (w1, ret) = beget0 this w
      in if fromPath \<noteq> Undefined then from' fromPath Undefined ret w1 else (w1, Inr ret))"

definition to :: "jsval \<Rightarrow> jsval \<Rightarrow> addr \<Rightarrow> world \<Rightarrow> world \<times> addr" where
  "to propertyPath root this w =
     (let (w1, binding) = (if this = SC_Binding then beget0 this w else (w, this));
          w2 = setp binding ''_toPropertyPath'' propertyPath w1;
          w3 = setp binding ''_toRoot'' root w2;
          w4 = setp binding ''_toTuple'' Null w3
      in (w4, binding))"

section \<open>The transform pipeline\<close>

text \<open>
  \<^verbatim>\<open>transform(transformFunc)\<close>, statement by statement. The test that
  guards the copy reads the property \<^verbatim>\<open>_transform\<close> of the parent (the
  pipeline is stored under \<^verbatim>\<open>_transforms\<close>); \<^verbatim>\<open>&&\<close> does not
  evaluate its right operand when \<open>t\<close> is falsy.
\<close>

definition transform_clone :: "addr \<Rightarrow> jsval \<Rightarrow> world \<Rightarrow> world \<times> (error + jsval)" where
  "transform_clone binding t w =
     (if \<not> truthy t then (w, Inr t)
      else
        (case member (heap w) (getp w binding ''parentBinding'') ''_transform'' of
           Inl e \<Rightarrow> (w, Inl e)
         | Inr pt \<Rightarrow>
             if t = pt then
               (case js_slice t w of
                  (w1, Inl e) \<Rightarrow> (w1, Inl e)
                | (w1, Inr t1) \<Rightarrow> (setp binding ''_transforms'' t1 w1, Inr t1))
             else (w, Inr t)))"

definition transform_create :: "addr \<Rightarrow> jsval \<Rightarrow> world \<Rightarrow> world \<times> jsval" where
  "transform_create binding t w =
     (if \<not> truthy t then
        (let (w1, a) = alloc (Arr []) w
         in (setp binding ''_transforms'' (Ref a) w1, Ref a))
      else (w, t))"

definition transform :: "jsval \<Rightarrow> addr \<Rightarrow> world \<Rightarrow> world \<times> (error + addr)" where
  "transform transformFunc this w =
     (let (w1, binding) = (if this = SC_Binding then beget0 this w else (w, this));
          t = getp w1 binding ''_transforms''
      in case transform_clone binding t w1 of
           (w2, Inl e) \<Rightarrow> (w2, Inl e)
         | (w2, Inr t2) \<Rightarrow>
             (let (w3, t3) = transform_create binding t2 w2
              in case js_push t3 transformFunc w3 of
                   (w4, Inl e) \<Rightarrow> (w4, Inl e)
                 | (w4, Inr u) \<Rightarrow> (w4, Inr binding)))"

text \<open>
  Modelled from the spec: \<^verbatim>\<open>SC.isArray\<close> is not part of these sources; it
  recognises the sequences, here the values that refer to an array of the store.
\<close>

definition SC_isArray :: "cell list \<Rightarrow> jsval \<Rightarrow> bool" where
  "SC_isArray h v = (array_of h v \<noteq> None)"

text \<open>
  The function that \<^verbatim>\<open>single\<close> installs. Both ways of reading the first
  element (\<^verbatim>\<open>value.objectAt(0)\<close> where the array has that method, else
  \<^verbatim>\<open>value[0]\<close>) give the element at index 0.
\<close>

definition single_transform :: "jsval \<Rightarrow> cell list \<Rightarrow> jsval \<Rightarrow> jsval" where
  "single_transform placeholder h v =
     (if SC_isArray h v then
        (let xs = the (array_of h v)
         in if length xs > 1 then placeholder
            else if length xs \<le> 0 then Null
            else xs ! 0)
      else v)"

definition single :: "jsval \<Rightarrow> jsval \<Rightarrow> addr \<Rightarrow> world \<Rightarrow> world \<times> (error + addr)" where
  "single fromPath placeholder this w =
     (let placeholder1 = (if placeholder = Undefined then SC_MULTIPLE_PLACEHOLDER else placeholder)
      in case from' fromPath Undefined this w of
           (w1, Inl e) \<Rightarrow> (w1, Inl e)
         | (w1, Inr b) \<Rightarrow> transform (SingleFn placeholder1) b w1)"

text \<open>
  Calling a pipeline entry, \<^verbatim>\<open>transform(v, this)\<close>. \<open>user\<close> gives the
  meaning of the caller-supplied functions, which may change the state. The methods of
  \<^verbatim>\<open>SC.Binding\<close> are never installed as transforms, so calling anything
  but a transform function is modelled as the TypeError that calling a non-function
  throws.
\<close>

definition call_transform ::
  "(nat \<Rightarrow> jsval \<Rightarrow> addr \<Rightarrow> world \<Rightarrow> world \<times> jsval) \<Rightarrow> jsval \<Rightarrow> jsval \<Rightarrow> addr \<Rightarrow> world
     \<Rightarrow> world \<times> (error + jsval)" where
  "call_transform user f v binding w =
     (case f of
        SingleFn p \<Rightarrow> (w, Inr (single_transform p (heap w) v))
      | UserFn i \<Rightarrow> (let (w1, r) = user i v binding w in (w1, Inr r))
      | _ \<Rightarrow> (w, Inl (TypeError ''transform is not a function'')))"

definition resetTransforms :: "addr \<Rightarrow> world \<Rightarrow> world \<times> addr" where
  "resetTransforms this w =
     (let (w1, binding) = (if this = SC_Binding then beget0 this w else (w, this))
      in (setp binding ''_transforms'' Null w1, binding))"

section \<open>Directionality and error policy\<close>

text \<open>
  \<^verbatim>\<open>oneWay(fromPath, aFlag)\<close> and \<^verbatim>\<open>noError(fromPath, aFlag)\<close>;
  \<^verbatim>\<open>$type(x) === T_BOOL\<close> holds of the booleans.
\<close>

definition is_bool :: "jsval \<Rightarrow> bool" where
  "is_bool v = (case v of JBool b \<Rightarrow> True | _ \<Rightarrow> False)"

definition flag_helper :: "string \<Rightarrow> jsval \<Rightarrow> jsval \<Rightarrow> addr \<Rightarrow> world \<Rightarrow> world \<times> (error + addr)" where
  "flag_helper key fromPath aFlag this w =
     (let (fromPath1, aFlag1) =
            (if aFlag = Undefined \<and> is_bool fromPath then (Null, fromPath) else (fromPath, aFlag))
      in case from' fromPath1 Undefined this w of
           (w1, Inl e) \<Rightarrow> (w1, Inl e)
         | (w1, Inr b) \<Rightarrow>
             (let (w2, binding) = (if b = SC_Binding then beget0 b w1 else (w1, b))
              in (setp binding key (if aFlag1 = Undefined then JBool True else aFlag1) w2,
                  Inr binding)))"

definition oneWay :: "jsval \<Rightarrow> jsval \<Rightarrow> addr \<Rightarrow> world \<Rightarrow> world \<times> (error + addr)" where
  "oneWay fromPath aFlag this w = flag_helper ''_oneWay'' fromPath aFlag this w"

definition noError :: "jsval \<Rightarrow> jsval \<Rightarrow> addr \<Rightarrow> world \<Rightarrow> world \<times> (error + addr)" where
  "noError fromPath aFlag this w = flag_helper ''_noError'' fromPath aFlag this w"

section \<open>Connecting and disconnecting\<close>

text \<open>
  Modelled from the spec: the observer registry \<^verbatim>\<open>SC.Observers\<close> is not
  part of these sources. \<^verbatim>\<open>addObserver(path, handler, context, root)\<close>
  registers the callback and \<^verbatim>\<open>removeObserver\<close> with the same arguments
  unregisters it; the spec gives neither a way to fail.
\<close>

definition addObserver :: "jsval \<Rightarrow> jsval \<Rightarrow> jsval \<Rightarrow> jsval \<Rightarrow> world \<Rightarrow> world" where
  "addObserver path func target root w = w\<lparr>observers := observers w @ [(path, func, target, root)]\<rparr>"

definition removeObserver :: "jsval \<Rightarrow> jsval \<Rightarrow> jsval \<Rightarrow> jsval \<Rightarrow> world \<Rightarrow> world" where
  "removeObserver path func target root w =
     w\<lparr>observers := remove1 (path, func, target, root) (observers w)\<rparr>"

definition connect :: "addr \<Rightarrow> world \<Rightarrow> world \<times> addr" where
  "connect this w =
     (if truthy (getp w this ''isConnected'') then (w, this)
      else
        (let w1 = addObserver (getp w this ''_fromPropertyPath'') (getp w this ''propertyDidChange'')
                    (Ref this) (getp w this ''_fromRoot'') w;
             w2 = (if \<not> truthy (getp w1 this ''_oneWay'') then
                     addObserver (getp w1 this ''_toPropertyPath'') (getp w1 this ''propertyDidChange'')
                       (Ref this) (getp w1 this ''_toRoot'') w1
                   else w1);
             w3 = setp this ''isConnected'' (JBool True) w2
         in (w3, this)))"

definition disconnect :: "addr \<Rightarrow> world \<Rightarrow> world \<times> addr" where
  "disconnect this w =
     (if \<not> truthy (getp w this ''isConnected'') then (w, this)
      else
        (let w1 = removeObserver (getp w this ''_fromPropertyPath'') (getp w this ''propertyDidChange'')
                    (Ref this) (getp w this ''_fromRoot'') w;
             w2 = (if \<not> truthy (getp w1 this ''_oneWay'') then
                     removeObserver (getp w1 this ''_toPropertyPath'') (getp w1 this ''propertyDidChange'')
                       (Ref this) (getp w1 this ''_toRoot'') w1
                   else w1);
             w3 = setp this ''isConnected'' (JBool False) w2
         in (w3, this)))"

definition connected :: "world \<Rightarrow> addr \<Rightarrow> bool" where
  "connected w b = truthy (getp w b ''isConnected'')"

text \<open>
  The objects a property of the object at \<open>a\<close> can be read from: the object itself,
  then its prototype, and so on up the chain, in the order \<open>get_prop\<close> visits them.
  For a binding these are the binding and the templates it was derived from.
\<close>

function proto_chain :: "cell list \<Rightarrow> addr \<Rightarrow> addr list" where
  "proto_chain h a =
     (case cell_at h a of
        Some (Obj proto ps) \<Rightarrow>
          a # (case proto of
                 Some p \<Rightarrow> if p < a then proto_chain h p else []
               | None \<Rightarrow> [])
      | _ \<Rightarrow> [])"
  by pat_completeness auto
termination
  by (relation "measure (\<lambda>(h, a). a)") auto

declare proto_chain.simps [simp del]

section \<open>The change queues\<close>


definition set_add :: "jsval \<Rightarrow> addr \<Rightarrow> world \<Rightarrow> world \<times> (error + unit)" where
  "set_add q x w =
     (case q of
        Ref a \<Rightarrow>
          (case cell_at (heap w) a of
             Some (SetC xs) \<Rightarrow>
               (w\<lparr>heap := (heap w)[a := SetC (if x \<in> set xs then xs else xs @ [x])]\<rparr>, Inr ())
           | _ \<Rightarrow> (w, Inl (TypeError ''add is not a function'')))
      | _ \<Rightarrow> (w, Inl (TypeError ''add is not a function'')))"



text \<open>The statement \<^verbatim>\<open>SC.Binding._changeQueue.add(this)\<close>.\<close>

definition enqueue :: "addr \<Rightarrow> world \<Rightarrow> world \<times> (error + unit)" where
  "enqueue this w = set_add (getp w SC_Binding ''_changeQueue'') this w"

text \<open>
  \<^verbatim>\<open>fromPropertyDidChange(key, target)\<close>; \<open>tget\<close> is the collaborator's
  \<^verbatim>\<open>target.get(key)\<close>. The comparison is \<^verbatim>\<open>!==\<close>.
\<close>

definition fromPropertyDidChange ::
  "(jsval \<Rightarrow> jsval \<Rightarrow> world \<Rightarrow> jsval) \<Rightarrow> jsval \<Rightarrow> jsval \<Rightarrow> addr \<Rightarrow> world \<Rightarrow> world \<times> (error + unit)" where
  "fromPropertyDidChange tget key target this w =
     (let v = tget target key w
      in if v \<noteq> getp w this ''_bindingValue'' then
           enqueue this (setp this ''_bindingValue'' v w)
         else (w, Inr ()))"


section \<open>Flushing\<close>





section \<open>Applying a binding\<close>

text \<open>
  \<^verbatim>\<open>applyBindingValue\<close> calls three collaborators, taken as parameters:
  the path resolution \<^verbatim>\<open>SC.Object.tupleForPropertyPath(path, root)\<close>,
  which gives a (target, key) pair or nothing truthy; the method
  \<^verbatim>\<open>target.setPathIfChanged(key, value)\<close> of a resolved target, which may
  run any observer; and the caller-supplied transform functions. The model returns,
  besides the state, the calls it made to the last two, in order.
\<close>

datatype ext_call =
    SetPathIfChanged jsval jsval jsval
  | TransformCall jsval jsval

type_synonym resolver = "jsval \<Rightarrow> jsval \<Rightarrow> world \<Rightarrow> (jsval \<times> jsval) option"
type_synonym writer = "jsval \<Rightarrow> jsval \<Rightarrow> jsval \<Rightarrow> world \<Rightarrow> world"
type_synonym userfns = "nat \<Rightarrow> jsval \<Rightarrow> addr \<Rightarrow> world \<Rightarrow> world \<times> jsval"

definition computeBindingTargets :: "resolver \<Rightarrow> addr \<Rightarrow> world \<Rightarrow> world" where
  "computeBindingTargets tupleForPropertyPath this w =
     (let w1 =
            (if \<not> truthy (getp w this ''_fromTarget'') then
               (case tupleForPropertyPath (getp w this ''_fromPropertyPath'') (getp w this ''_fromRoot'') w of
                  Some (target, key) \<Rightarrow>
                    setp this ''_fromPropertyKey'' key (setp this ''_fromTarget'' target w)
                | None \<Rightarrow> w)
             else w)
      in if \<not> truthy (getp w1 this ''_toTarget'') then
           (case tupleForPropertyPath (getp w1 this ''_toPropertyPath'') (getp w1 this ''_toRoot'') w1 of
              Some (target, key) \<Rightarrow>
                setp this ''_toPropertyKey'' key (setp this ''_toTarget'' target w1)
            | None \<Rightarrow> w1)
         else w1)"

text \<open>
  What \<^verbatim>\<open>transforms.length\<close> and \<^verbatim>\<open>transforms[idx]\<close> read: the
  entries of an array, the characters of a string, nothing of any other value.
\<close>

definition elements :: "cell list \<Rightarrow> jsval \<Rightarrow> jsval list" where
  "elements h t =
     (case array_of h t of
        Some xs \<Rightarrow> xs
      | None \<Rightarrow> (case t of JStr s \<Rightarrow> map (\<lambda>c. JStr [c]) s | _ \<Rightarrow> []))"

definition js_index :: "cell list \<Rightarrow> jsval \<Rightarrow> nat \<Rightarrow> jsval" where
  "js_index h t idx = (let xs = elements h t in if idx < length xs then xs ! idx else Undefined)"

text \<open>
  The loop \<^verbatim>\<open>for(var idx=0;idx<len;idx++)\<close>: \<open>len\<close> is read once before
  the loop, the entry at \<open>idx\<close> in each round. An exception thrown by a call ends it.
\<close>

function transform_loop ::
  "userfns \<Rightarrow> jsval \<Rightarrow> addr \<Rightarrow> nat \<Rightarrow> nat \<Rightarrow> jsval \<Rightarrow> world \<Rightarrow> world \<times> ext_call list \<times> (error + jsval)" where
  "transform_loop user transforms this len idx v w =
     (if idx < len then
        (case call_transform user (js_index (heap w) transforms idx) v this w of
           (w1, Inl e) \<Rightarrow> (w1, [TransformCall (js_index (heap w) transforms idx) v], Inl e)
         | (w1, Inr v1) \<Rightarrow>
             (case transform_loop user transforms this len (Suc idx) v1 w1 of
                (w2, cs, r) \<Rightarrow> (w2, TransformCall (js_index (heap w) transforms idx) v # cs, r)))
      else (w, [], Inr v))"
  by pat_completeness auto
termination
  by (relation "measure (\<lambda>(user, transforms, this, len, idx, v, w). len - idx)") auto

declare transform_loop.simps [simp del]

definition is_error :: "jsval \<Rightarrow> bool" where
  "is_error v = (case v of JError e \<Rightarrow> True | _ \<Rightarrow> False)"

definition applyBindingValue ::
  "resolver \<Rightarrow> writer \<Rightarrow> userfns \<Rightarrow> addr \<Rightarrow> world \<Rightarrow> world \<times> ext_call list \<times> (error + unit)" where
  "applyBindingValue tupleForPropertyPath setPathIfChanged user this w =
     (let w1 = computeBindingTargets tupleForPropertyPath this w;
          v = getp w1 this ''_bindingValue'';
          (w2, cs1) =
            (if \<not> truthy (getp w1 this ''_oneWay'') \<and> truthy (getp w1 this ''_fromTarget'') then
               (setPathIfChanged (getp w1 this ''_fromTarget'') (getp w1 this ''_fromPropertyKey'') v w1,
                [SetPathIfChanged (getp w1 this ''_fromTarget'') (getp w1 this ''_fromPropertyKey'') v])
             else (w1, []));
          transforms = getp w2 this ''_transforms''
      in case (if truthy transforms then
                 transform_loop user transforms this (length (elements (heap w2) transforms)) 0 v w2
               else (w2, [], Inr v)) of
           (w3, cs2, Inl e) \<Rightarrow> (w3, cs1 @ cs2, Inl e)
         | (w3, cs2, Inr v1) \<Rightarrow>
             (let v2 = (if truthy (getp w3 this ''_noError'') \<and> is_error v1 then Null else v1)
              in if truthy (getp w3 this ''_toTarget'') then
                   (setPathIfChanged (getp w3 this ''_toTarget'') (getp w3 this ''_toPropertyKey'') v2 w3,
                    cs1 @ cs2 @ [SetPathIfChanged (getp w3 this ''_toTarget'') (getp w3 this ''_toPropertyKey'') v2],
                    Inr ())
                 else (w3, cs1 @ cs2, Inr ())))"

subsection \<open>The four steps as the specification words them\<close>

text \<open>
  The specification describes \<^verbatim>\<open>applyBindingValue\<close> as four steps in a fixed
  order. The definitions below follow its words, for comparison with the model of the
  code: the write-back of the raw value, the pipeline as a left-to-right pass over the
  list of transforms, the replacement of an error by null, and the write to the
  to-endpoint.
\<close>

definition spec_write_back :: "writer \<Rightarrow> addr \<Rightarrow> jsval \<Rightarrow> world \<Rightarrow> world \<times> ext_call list" where
  "spec_write_back set_if_changed b v w =
     (if \<not> truthy (getp w b ''_oneWay'') \<and> truthy (getp w b ''_fromTarget'') then
        (set_if_changed (getp w b ''_fromTarget'') (getp w b ''_fromPropertyKey'') v w,
         [SetPathIfChanged (getp w b ''_fromTarget'') (getp w b ''_fromPropertyKey'') v])
      else (w, []))"

fun spec_pipeline ::
  "userfns \<Rightarrow> jsval list \<Rightarrow> addr \<Rightarrow> jsval \<Rightarrow> world \<Rightarrow> world \<times> ext_call list \<times> (error + jsval)" where
  "spec_pipeline user [] b v w = (w, [], Inr v)"
| "spec_pipeline user (f # fs) b v w =
     (case call_transform user f v b w of
        (w1, Inl e) \<Rightarrow> (w1, [TransformCall f v], Inl e)
      | (w1, Inr v1) \<Rightarrow>
          (case spec_pipeline user fs b v1 w1 of
             (w2, cs, r) \<Rightarrow> (w2, TransformCall f v # cs, r)))"

definition spec_suppress :: "addr \<Rightarrow> jsval \<Rightarrow> world \<Rightarrow> jsval" where
  "spec_suppress b v w = (if truthy (getp w b ''_noError'') \<and> is_error v then Null else v)"

definition spec_write_to :: "writer \<Rightarrow> addr \<Rightarrow> jsval \<Rightarrow> world \<Rightarrow> world \<times> ext_call list" where
  "spec_write_to set_if_changed b v w =
     (if truthy (getp w b ''_toTarget'') then
        (set_if_changed (getp w b ''_toTarget'') (getp w b ''_toPropertyKey'') v w,
         [SetPathIfChanged (getp w b ''_toTarget'') (getp w b ''_toPropertyKey'') v])
      else (w, []))"

definition spec_applyBindingValue ::
  "resolver \<Rightarrow> writer \<Rightarrow> userfns \<Rightarrow> addr \<Rightarrow> world \<Rightarrow> world \<times> ext_call list \<times> (error + unit)" where
  "spec_applyBindingValue resolve set_if_changed user b w =
     (let w1 = computeBindingTargets resolve b w;
          v = getp w1 b ''_bindingValue'';
          (w2, cs1) = spec_write_back set_if_changed b v w1;
          (w3, cs2, r) = spec_pipeline user (elements (heap w2) (getp w2 b ''_transforms'')) b v w2
      in case r of
           Inl e \<Rightarrow> (w3, cs1 @ cs2, Inl e)
         | Inr v1 \<Rightarrow>
             (let (w4, cs3) = spec_write_to set_if_changed b (spec_suppress b v1 w3) w3
              in (w4, cs1 @ cs2 @ cs3, Inr ())))"

section \<open>The operations as steps\<close>

text \<open>
  The methods of a binding that run no collaborator code beyond the registry, as
  labelled steps on the state. A step that throws still leaves the state it reached.
  \<open>OpChanged v b\<close> is the change handler of \<open>b\<close> when the changed property reads
  as \<open>v\<close>.
\<close>

datatype op =
    OpBeget jsval addr
  | OpFrom jsval jsval addr
  | OpTo jsval jsval addr
  | OpConnect addr
  | OpDisconnect addr
  | OpOneWay jsval jsval addr
  | OpNoError jsval jsval addr
  | OpTransform jsval addr
  | OpResetTransforms addr
  | OpSingle jsval jsval addr
  | OpChanged jsval addr
  | OpComputeTargets resolver addr

fun run_op :: "op \<Rightarrow> world \<Rightarrow> world" where
  "run_op (OpBeget fromPath b) w = fst (beget fromPath b w)"
| "run_op (OpFrom path root b) w = fst (from' path root b w)"
| "run_op (OpTo path root b) w = fst (to path root b w)"
| "run_op (OpConnect b) w = fst (connect b w)"
| "run_op (OpDisconnect b) w = fst (disconnect b w)"
| "run_op (OpOneWay fromPath aFlag b) w = fst (oneWay fromPath aFlag b w)"
| "run_op (OpNoError fromPath aFlag b) w = fst (noError fromPath aFlag b w)"
| "run_op (OpTransform f b) w = fst (transform f b w)"
| "run_op (OpResetTransforms b) w = fst (resetTransforms b w)"
| "run_op (OpSingle fromPath placeholder b) w = fst (single fromPath placeholder b w)"
| "run_op (OpChanged v b) w = fst (fromPropertyDidChange (\<lambda>target key w. v) Null Null b w)"
| "run_op (OpComputeTargets r b) w = computeBindingTargets r b w"

text \<open>The transform pipeline a binding sees, through its prototype chain.\<close>

definition pipeline :: "world \<Rightarrow> addr \<Rightarrow> jsval list option" where
  "pipeline w b = array_of (heap w) (getp w b ''_transforms'')"

section \<open>Well-formed queues and well-behaved applications\<close>




text \<open>The same state of the queues, with the two addresses and the members named.\<close>

definition queues :: "world \<Rightarrow> addr \<Rightarrow> addr \<Rightarrow> addr list \<Rightarrow> addr list \<Rightarrow> bool" where
  "queues w qa qb xs ys =
     (getp w SC_Binding ''_changeQueue'' = Ref qa \<and> getp w SC_Binding ''_alternateChangeQueue'' = Ref qb
      \<and> qa \<noteq> qb \<and> cell_at (heap w) qa = Some (SetC xs) \<and> cell_at (heap w) qb = Some (SetC ys))"





section \<open>Example states\<close>




text \<open>A binding at address 3, before and after \<^verbatim>\<open>connect\<close>.\<close>

definition unconnected_world :: world where
  "unconnected_world = fst (beget Undefined SC_Binding init_world)"

definition connected_world :: world where
  "connected_world = fst (connect 3 unconnected_world)"

text \<open>
  The binding at address 3 with a binding derived from it at address 4, neither of
  them connected.
\<close>

definition derived_world :: world where
  "derived_world = fst (beget Undefined 3 unconnected_world)"

text \<open>
  A binding at address 3 from \<^verbatim>\<open>A.p\<close> to \<^verbatim>\<open>B.q\<close>, two-way,
  with the pipeline of a caller-supplied function followed by the function of
  \<^verbatim>\<open>single\<close>, and the pending value 41; the objects \<^verbatim>\<open>A\<close> and
  \<^verbatim>\<open>B\<close> at the addresses 5 and 6. The collaborators of the example: a path
  resolution that knows the two paths, a \<^verbatim>\<open>setPathIfChanged\<close> that writes
  the property when the value differs, and caller-supplied functions that add one to a
  number and record what they saw.
\<close>

definition example_resolver :: resolver where
  "example_resolver path root w =
     (if path = JStr ''A.p'' then Some (Ref 5, JStr ''p'')
      else if path = JStr ''B.q'' then Some (Ref 6, JStr ''q'')
      else None)"

definition example_writer :: writer where
  "example_writer target key v w =
     (case (target, key) of
        (Ref a, JStr k) \<Rightarrow> if getp w a k \<noteq> v then setp a k v w else w
      | _ \<Rightarrow> w)"

definition example_user :: userfns where
  "example_user i v b w =
     (setp 6 ''seen'' v w, (case v of JNum n \<Rightarrow> JNum (n + 1) | _ \<Rightarrow> v))"

definition apply_world :: world where
  "apply_world =
     (let w1 = fst (beget Undefined SC_Binding init_world);
          w2 = fst (from' (JStr ''A.p'') Undefined 3 w1);
          w3 = fst (to (JStr ''B.q'') Undefined 3 w2);
          w4 = fst (transform (UserFn 0) 3 w3);
          w5 = fst (transform (SingleFn SC_MULTIPLE_PLACEHOLDER) 3 w4);
          w6 = fst (alloc (Obj None [(''p'', JNum 1)]) w5);
          w7 = fst (alloc (Obj None []) w6)
      in fst (fromPropertyDidChange (\<lambda>target key w. JNum 41) (JStr ''p'') (Ref 5) 3 w7))"


section \<open>The store\<close>

lemma cell_at_append: "a < length h \<Longrightarrow> cell_at (h @ [c]) a = cell_at h a"
  by (simp add: cell_at_def nth_append)

lemma cell_at_update:
  "cell_at (h[a := c]) b = (if a = b \<and> a < length h then Some c else cell_at h b)"
  by (auto simp: cell_at_def)

lemma get_prop_append: "b < length h \<Longrightarrow> get_prop (h @ [c]) b k = get_prop h b k"
proof (induction h b k rule: get_prop.induct)
  case (1 h a k)
  show ?case
    using "1.prems" "1.IH"
    by (subst (1 2) get_prop.simps)
       (auto simp: cell_at_append split: option.splits cell.splits)
qed

lemma length_put_prop [simp]: "length (put_prop a k v h) = length h"
  by (simp add: put_prop_def split: option.splits cell.splits)

lemma cell_at_put_prop_other: "a \<noteq> b \<Longrightarrow> cell_at (put_prop a k v h) b = cell_at h b"
  by (simp add: put_prop_def cell_at_def split: option.splits cell.splits)

lemma cell_at_put_prop_same:
  "cell_at (put_prop a k v h) a =
     (case cell_at h a of Some (Obj proto ps) \<Rightarrow> Some (Obj proto (upd_alist k v ps)) | c \<Rightarrow> c)"
  by (auto simp: put_prop_def cell_at_def split: option.splits cell.splits)

lemma map_of_upd_alist: "map_of (upd_alist k v ps) k' = (if k' = k then Some v else map_of ps k')"
  by (induction ps) (auto simp: upd_alist_def)

lemma get_prop_put_prop_other_key:
  "k \<noteq> k' \<Longrightarrow> get_prop (put_prop a k' v h) b k = get_prop h b k"
proof (induction h b k rule: get_prop.induct)
  case (1 h b k)
  show ?case
  proof (cases "a = b")
    case True
    then show ?thesis
      using "1.prems" "1.IH"
      by (subst (1 2) get_prop.simps)
         (auto simp: cell_at_put_prop_same map_of_upd_alist split: option.splits cell.splits)
  next
    case False
    then show ?thesis
      using "1.prems" "1.IH"
      by (subst (1 2) get_prop.simps)
         (auto simp: cell_at_put_prop_other split: option.splits cell.splits)
  qed
qed

lemma get_prop_put_prop_same_key:
  "get_prop (put_prop a k v h) b k = v \<or> get_prop (put_prop a k v h) b k = get_prop h b k"
proof (induction h b k rule: get_prop.induct)
  case (1 h b k)
  show ?case
  proof (cases "a = b")
    case True
    then show ?thesis
      using "1.IH"
      by (subst (1 2 3) get_prop.simps)
         (auto simp: cell_at_put_prop_same map_of_upd_alist split: option.splits cell.splits)
  next
    case False
    then show ?thesis
      using "1.IH"
      by (subst (1 2 3) get_prop.simps)
         (auto simp: cell_at_put_prop_other split: option.splits cell.splits)
  qed
qed

lemma get_prop_update_arr:
  "cell_at h a = Some (Arr xs) \<Longrightarrow> get_prop (h[a := Arr ys]) b k = get_prop h b k"
proof (induction h b k rule: get_prop.induct)
  case (1 h b k)
  show ?case
    using "1.prems" "1.IH"
    by (subst (1 2) get_prop.simps)
       (auto simp: cell_at_update split: option.splits cell.splits)
qed

lemma get_prop_update_set:
  "cell_at h a = Some (SetC xs) \<Longrightarrow> get_prop (h[a := SetC ys]) b k = get_prop h b k"
proof (induction h b k rule: get_prop.induct)
  case (1 h b k)
  show ?case
    using "1.prems" "1.IH"
    by (subst (1 2) get_prop.simps)
       (auto simp: cell_at_update split: option.splits cell.splits)
qed

lemma getp_setp_other_key [simp]: "k \<noteq> k' \<Longrightarrow> getp (setp a k' v w) b k = getp w b k"
  by (simp add: getp_def setp_def get_prop_put_prop_other_key)

lemma getp_observers_update [simp]: "getp (w\<lparr>observers := os\<rparr>) b k = getp w b k"
  by (simp add: getp_def)

lemma getp_heap_append [simp]:
  "b < length (heap w) \<Longrightarrow> getp (w\<lparr>heap := heap w @ [c]\<rparr>) b k = getp w b k"
  by (simp add: getp_def get_prop_append)

lemma getp_arr_update [simp]:
  "cell_at (heap w) a = Some (Arr xs) \<Longrightarrow> getp (w\<lparr>heap := (heap w)[a := Arr ys]\<rparr>) b k = getp w b k"
  by (simp add: getp_def get_prop_update_arr)

lemma getp_set_update [simp]:
  "cell_at (heap w) a = Some (SetC xs) \<Longrightarrow> getp (w\<lparr>heap := (heap w)[a := SetC ys]\<rparr>) b k = getp w b k"
  by (simp add: getp_def get_prop_update_set)

lemma heap_setp_length [simp]: "length (heap (setp a k v w)) = length (heap w)"
  by (simp add: setp_def)

lemma observers_setp [simp]: "observers (setp a k v w) = observers w"
  by (simp add: setp_def)


section \<open>Properties of the builder methods\<close>

lemma single_transform_cases:
  "single_transform p h v =
     (case array_of h v of
        None \<Rightarrow> v
      | Some [] \<Rightarrow> Null
      | Some [x] \<Rightarrow> x
      | Some (x # y # zs) \<Rightarrow> p)"
  by (simp add: single_transform_def SC_isArray_def split: option.splits list.splits)

text \<open>
  Claim C10. \<^verbatim>\<open>SC.Binding.single()\<close>, called with no placeholder, returns a
  binding (the object at address 3) whose pipeline holds exactly the closure
  \<open>SingleFn SC_MULTIPLE_PLACEHOLDER\<close>; and for every value \<open>v\<close>, in every state,
  calling that closure changes nothing and returns: \<open>v\<close> itself when \<open>v\<close> is not
  a sequence, null for the empty sequence, the element for a sequence of one element,
  and the multiple-values placeholder for a sequence of more than one element.
\<close>

theorem single_default_transform:
  "snd (single Undefined Undefined SC_Binding init_world) = Inr 3
   \<and> pipeline (fst (single Undefined Undefined SC_Binding init_world)) 3
       = Some [SingleFn SC_MULTIPLE_PLACEHOLDER]
   \<and> call_transform user (SingleFn SC_MULTIPLE_PLACEHOLDER) v b w =
       (w, Inr (case array_of (heap w) v of
                  None \<Rightarrow> v
                | Some [] \<Rightarrow> Null
                | Some [x] \<Rightarrow> x
                | Some (x # y # zs) \<Rightarrow> SC_MULTIPLE_PLACEHOLDER))"
proof -
  have installed: "snd (single Undefined Undefined SC_Binding init_world) = Inr 3"
    by code_simp
  have only: "pipeline (fst (single Undefined Undefined SC_Binding init_world)) 3
                = Some [SingleFn SC_MULTIPLE_PLACEHOLDER]"
    by code_simp
  show ?thesis
    using installed only by (simp add: call_transform_def single_transform_cases)
qed

text \<open>
  Claim C1. What \<^verbatim>\<open>from\<close> does, for every receiver, path, root and state:
  with a falsy path it returns the receiver, as the claim says; with a truthy path it
  never returns a binding, because it ends in a ReferenceError on the misspelt name
  \<^verbatim>\<open>bidning\<close>.
\<close>

theorem from_truthy_path_throws:
  "snd (from' p r this w) = (if truthy p then Inl (ReferenceError ''bidning'') else Inr this)"
  by (simp add: from'_def Let_def split_def)

text \<open>
  Claim C2. The template \<^verbatim>\<open>t = SC.Binding.single()\<close> (address 3) has the
  pipeline \<open>[SingleFn SC_MULTIPLE_PLACEHOLDER]\<close>. After \<^verbatim>\<open>d = t.beget()\<close>
  (address 5) and \<^verbatim>\<open>d.transform(f)\<close>, the pipeline of the template itself has
  grown by \<open>f\<close>: the array was not copied.
\<close>

theorem derived_transform_changes_template:
  "(let w1 = fst (single Undefined Undefined SC_Binding init_world);
        w2 = fst (beget Undefined 3 w1);
        w3 = fst (transform (UserFn 0) 5 w2)
    in snd (single Undefined Undefined SC_Binding init_world) = Inr 3
       \<and> snd (beget Undefined 3 w1) = Inr 5
       \<and> snd (transform (UserFn 0) 5 w2) = Inr 5
       \<and> pipeline w2 3 = Some [SingleFn SC_MULTIPLE_PLACEHOLDER]
       \<and> pipeline w3 3 = Some [SingleFn SC_MULTIPLE_PLACEHOLDER, UserFn 0])"
  by code_simp

section \<open>Properties of connect and disconnect\<close>

text \<open>
  Claim C3. A binding (address 3) derived from \<^verbatim>\<open>SC.Binding\<close>, with the
  from-path \<^verbatim>\<open>A.p\<close> and the to-path \<^verbatim>\<open>B.q\<close>, two-way and not
  connected. Its change handler is the method \<^verbatim>\<open>fromPropertyDidChange\<close>;
  \<^verbatim>\<open>connect\<close> subscribes on both endpoints and marks the binding connected,
  but the handler it hands to the registry is \<^verbatim>\<open>undefined\<close>.
\<close>

theorem connect_subscribes_undefined_handler:
  "(let w1 = fst (beget Undefined SC_Binding init_world);
        w2 = fst (from' (JStr ''A.p'') Undefined 3 w1);
        w3 = fst (to (JStr ''B.q'') Undefined 3 w2);
        w4 = fst (connect 3 w3)
    in snd (beget Undefined SC_Binding init_world) = Inr 3
       \<and> getp w3 3 ''_fromPropertyPath'' = JStr ''A.p''
       \<and> getp w3 3 ''_toPropertyPath'' = JStr ''B.q''
       \<and> \<not> connected w3 3
       \<and> getp w3 3 ''fromPropertyDidChange'' = Method ''fromPropertyDidChange''
       \<and> observers w4 = [(JStr ''A.p'', Undefined, Ref 3, Undefined),
                         (JStr ''B.q'', Undefined, Ref 3, Undefined)]
       \<and> connected w4 3)"
  by code_simp

text \<open>
  Claim C4. Two bindings that lack a path: the one at address 3 is one-way with a
  from-path and no to-path, the one at address 4 is two-way with neither path.
  \<^verbatim>\<open>connect\<close> returns each of them, with no error, and each is connected
  afterwards.
\<close>

theorem connect_without_paths_connects:
  "(let w1 = fst (oneWay Undefined Undefined SC_Binding init_world);
        w2 = fst (from' (JStr ''A.p'') Undefined 3 w1);
        w3 = fst (beget Undefined SC_Binding w2)
    in snd (oneWay Undefined Undefined SC_Binding init_world) = Inr 3
       \<and> snd (beget Undefined SC_Binding w2) = Inr 4
       \<and> getp w3 3 ''_toPropertyPath'' = Undefined
       \<and> getp w3 4 ''_fromPropertyPath'' = Undefined
       \<and> getp w3 4 ''_toPropertyPath'' = Undefined
       \<and> \<not> connected w3 3 \<and> \<not> connected w3 4
       \<and> snd (connect 3 w3) = 3 \<and> connected (fst (connect 3 w3)) 3
       \<and> snd (connect 4 w3) = 4 \<and> connected (fst (connect 4 w3)) 4)"
  by code_simp


section \<open>The connected flag\<close>

lemma beget0_keeps:
  "b < length (heap w) \<Longrightarrow> getp (fst (beget0 t w)) b ''isConnected'' = getp w b ''isConnected''"
  "length (heap w) \<le> length (heap (fst (beget0 t w)))"
  by (simp_all add: beget0_def SC_beget_def alloc_def)

lemma from_keeps:
  "b < length (heap w) \<Longrightarrow> getp (fst (from' p r t w)) b ''isConnected'' = getp w b ''isConnected''"
  "length (heap w) \<le> length (heap (fst (from' p r t w)))"
  by (simp_all add: from'_def beget0_def SC_beget_def alloc_def Let_def split_def)

lemma beget_keeps:
  "b < length (heap w) \<Longrightarrow> getp (fst (beget p t w)) b ''isConnected'' = getp w b ''isConnected''"
  by (simp add: beget_def Let_def split_def from_keeps beget0_keeps less_le_trans[OF _ beget0_keeps(2)])

lemma to_keeps:
  "b < length (heap w) \<Longrightarrow> getp (fst (to p r t w)) b ''isConnected'' = getp w b ''isConnected''"
  by (simp add: to_def beget0_def SC_beget_def alloc_def Let_def split_def)

lemma flag_helper_keeps:
  "key \<noteq> ''isConnected'' \<Longrightarrow> b < length (heap w) \<Longrightarrow>
     getp (fst (flag_helper key p f t w)) b ''isConnected'' = getp w b ''isConnected''"
  apply (simp add: flag_helper_def Let_def split_def split: prod.splits sum.splits)
  apply (auto simp: from'_def beget0_def SC_beget_def alloc_def Let_def split_def split: if_splits)
  done

lemma resetTransforms_keeps:
  "b < length (heap w) \<Longrightarrow> getp (fst (resetTransforms t w)) b ''isConnected'' = getp w b ''isConnected''"
  by (simp add: resetTransforms_def beget0_def SC_beget_def alloc_def Let_def split_def)

lemma js_slice_keeps:
  "b < length (heap w) \<Longrightarrow> getp (fst (js_slice t w)) b k = getp w b k"
  "length (heap w) \<le> length (heap (fst (js_slice t w)))"
  by (simp_all add: js_slice_def alloc_def split: option.splits jsval.splits)

lemma js_push_keeps:
  "getp (fst (js_push t f w)) b k = getp w b k"
  "length (heap (fst (js_push t f w))) = length (heap w)"
  by (simp_all add: js_push_def split: option.splits jsval.splits cell.splits)

lemma transform_clone_keeps:
  "b < length (heap w) \<Longrightarrow> getp (fst (transform_clone t x w)) b ''isConnected'' = getp w b ''isConnected''"
  using js_slice_keeps(1)[of b w x "''isConnected''"]
  by (auto simp: transform_clone_def split: sum.splits prod.splits)

lemma transform_clone_grows:
  "length (heap w) \<le> length (heap (fst (transform_clone t x w)))"
  using js_slice_keeps(2)[of w x]
  by (auto simp: transform_clone_def split: sum.splits prod.splits)

lemma transform_create_keeps:
  "b < length (heap w) \<Longrightarrow> getp (fst (transform_create t x w)) b ''isConnected'' = getp w b ''isConnected''"
  by (simp add: transform_create_def alloc_def)

lemma transform_create_grows:
  "length (heap w) \<le> length (heap (fst (transform_create t x w)))"
  by (simp add: transform_create_def alloc_def)

lemma transform_keeps:
  assumes "b < length (heap w)"
  shows "getp (fst (transform f t w)) b ''isConnected'' = getp w b ''isConnected''"
proof -
  obtain w1 binding where s1: "(if t = SC_Binding then beget0 t w else (w, t)) = (w1, binding)"
    by (cases "(if t = SC_Binding then beget0 t w else (w, t))")
  have k1: "getp w1 b ''isConnected'' = getp w b ''isConnected''" and g1: "b < length (heap w1)"
    using s1 assms beget0_keeps(1)[of b w t] beget0_keeps(2)[of w t]
    by (auto split: if_splits)
  define tv where "tv = getp w1 binding ''_transforms''"
  obtain w2 r2 where s2: "transform_clone binding tv w1 = (w2, r2)"
    by (cases "transform_clone binding tv w1")
  have k2: "getp w2 b ''isConnected'' = getp w b ''isConnected''" and g2: "b < length (heap w2)"
    using s2 k1 g1 transform_clone_keeps[of b w1 binding tv] transform_clone_grows[of w1 binding tv]
    by auto
  show ?thesis
  proof (cases r2)
    case (Inl e)
    then show ?thesis
      using s1 s2 k2 by (simp add: transform_def tv_def)
  next
    case (Inr t2)
    obtain w3 t3 where s3: "transform_create binding t2 w2 = (w3, t3)"
      by (cases "transform_create binding t2 w2")
    have k3: "getp w3 b ''isConnected'' = getp w b ''isConnected''"
      using s3 k2 g2 transform_create_keeps[of b w2 binding t2] by auto
    have k4: "getp (fst (js_push t3 f w3)) b ''isConnected'' = getp w b ''isConnected''"
      using k3 by (simp add: js_push_keeps)
    show ?thesis
      using s1 s2 s3 Inr k4
      by (auto simp: transform_def tv_def split: prod.splits sum.splits)
  qed
qed

lemma single_keeps:
  assumes "b < length (heap w)"
  shows "getp (fst (single p ph t w)) b ''isConnected'' = getp w b ''isConnected''"
proof (cases "from' p Undefined t w")
  case (Pair w1 r)
  have k1: "getp w1 b ''isConnected'' = getp w b ''isConnected''" and g1: "b < length (heap w1)"
    using Pair assms from_keeps(1)[of b w p Undefined t] from_keeps(2)[of w p Undefined t] by auto
  show ?thesis
    using Pair k1 transform_keeps[OF g1]
    by (cases r) (auto simp: single_def Let_def)
qed

lemma set_add_keeps: "getp (fst (set_add q x w)) b k = getp w b k"
  by (simp add: set_add_def split: jsval.splits option.splits cell.splits)

lemma changed_keeps:
  "getp (fst (fromPropertyDidChange tget key target t w)) b ''isConnected'' = getp w b ''isConnected''"
  by (simp add: fromPropertyDidChange_def enqueue_def Let_def set_add_keeps)

lemma computeBindingTargets_keeps:
  "getp (computeBindingTargets r t w) b ''isConnected'' = getp w b ''isConnected''"
  by (simp add: computeBindingTargets_def Let_def split: option.splits prod.splits)

lemma truthy_setp_isConnected_True:
  "truthy (getp w b ''isConnected'') \<Longrightarrow> truthy (getp (setp a ''isConnected'' (JBool True) w) b ''isConnected'')"
  using get_prop_put_prop_same_key[of a "''isConnected''" "JBool True" "heap w" b]
  by (auto simp: getp_def setp_def)

lemma truthy_setp_isConnected_False:
  "truthy (getp (setp a ''isConnected'' (JBool False) w) b ''isConnected'') \<Longrightarrow> truthy (getp w b ''isConnected'')"
  using get_prop_put_prop_same_key[of a "''isConnected''" "JBool False" "heap w" b]
  by (auto simp: getp_def setp_def)

lemma connect_never_disconnects: "connected w b \<Longrightarrow> connected (fst (connect c w)) b"
  by (auto simp: connected_def connect_def Let_def addObserver_def intro: truthy_setp_isConnected_True)

lemma disconnect_never_connects: "connected (fst (disconnect c w)) b \<Longrightarrow> connected w b"
  by (auto simp: connected_def disconnect_def Let_def removeObserver_def split: if_splits dest: truthy_setp_isConnected_False)

lemma get_prop_put_prop_off_chain:
  "c \<notin> set (proto_chain h b) \<Longrightarrow> get_prop (put_prop c k v h) b k' = get_prop h b k'"
proof (induction h b k' rule: get_prop.induct)
  case (1 h b k')
  show ?case
  proof (cases "c = b")
    case True
    then have "\<not> (\<exists>p ps. cell_at h b = Some (Obj p ps))"
      using "1.prems" by (subst (asm) proto_chain.simps) (auto split: option.splits cell.splits)
    then show ?thesis
      using True
      by (subst (1 2) get_prop.simps)
         (auto simp: cell_at_put_prop_same split: option.splits cell.splits)
  next
    case False
    have rest: "c \<notin> set (proto_chain h p)"
      if "cell_at h b = Some (Obj (Some p) ps)" "p < b" for p ps
      using "1.prems" that by (subst (asm) proto_chain.simps) simp
    show ?thesis
      using False "1.IH" rest
      by (subst (1 2) get_prop.simps)
         (auto simp: cell_at_put_prop_other split: option.splits cell.splits)
  qed
qed

lemma connect_off_chain:
  "c \<notin> set (proto_chain (heap w) b) \<Longrightarrow> connected (fst (connect c w)) b = connected w b"
  by (simp add: connected_def connect_def Let_def addObserver_def getp_def setp_def
        get_prop_put_prop_off_chain)

lemma disconnect_off_chain:
  "c \<notin> set (proto_chain (heap w) b) \<Longrightarrow> connected (fst (disconnect c w)) b = connected w b"
  by (simp add: connected_def disconnect_def Let_def removeObserver_def getp_def setp_def
        get_prop_put_prop_off_chain)

lemma born_with_template_flag:
  assumes "t < length (heap w)"
  shows "snd (beget Undefined t w) = Inr (length (heap w))"
    and "connected (fst (beget Undefined t w)) (length (heap w)) = connected w t"
proof -
  show "snd (beget Undefined t w) = Inr (length (heap w))"
    by (simp add: beget_def beget0_def SC_beget_def alloc_def)
  let ?h = "heap w @ [Obj (Some t) []]"
  let ?n = "length (heap w)"
  have "get_prop (put_prop ?n ''parentBinding'' (Ref t) ?h) ?n ''isConnected''
          = get_prop ?h ?n ''isConnected''"
    by (simp add: get_prop_put_prop_other_key)
  also have "\<dots> = get_prop ?h t ''isConnected''"
    using assms by (subst get_prop.simps) (simp add: cell_at_def)
  also have "\<dots> = get_prop (heap w) t ''isConnected''"
    using assms by (rule get_prop_append)
  finally show "connected (fst (beget Undefined t w)) (length (heap w)) = connected w t"
    by (simp add: connected_def beget_def beget0_def SC_beget_def alloc_def getp_def setp_def)
qed

text \<open>
  The connected flag is read through the prototype chain, so it is not a property of
  one binding alone. With the binding at address 4 derived from the binding at address
  3: \<^verbatim>\<open>connect\<close> on 3 takes the flag of 4 from false to true, though
  \<^verbatim>\<open>connect\<close> was never called on 4. And a binding derived from the
  connected binding 3 is connected from its creation, so that its own
  \<^verbatim>\<open>connect\<close> subscribes nothing.
\<close>

theorem connected_changes_without_own_connect:
  "4 < length (heap derived_world)
   \<and> \<not> connected derived_world 4
   \<and> connected (run_op (OpConnect 3) derived_world) 4
   \<and> OpConnect 3 \<noteq> OpConnect 4
   \<and> snd (beget Undefined 3 connected_world) = Inr 4
   \<and> \<not> connected connected_world 4
   \<and> connected (fst (beget Undefined 3 connected_world)) 4
   \<and> observers (fst (connect 4 (fst (beget Undefined 3 connected_world))))
       = observers (fst (beget Undefined 3 connected_world))"
proof -
  have flipped: "4 < length (heap derived_world) \<and> \<not> connected derived_world 4
                 \<and> connected (run_op (OpConnect 3) derived_world) 4"
    by code_simp
  have other: "OpConnect 3 \<noteq> OpConnect 4" by simp
  have born: "snd (beget Undefined 3 connected_world) = Inr 4
              \<and> \<not> connected connected_world 4
              \<and> connected (fst (beget Undefined 3 connected_world)) 4"
    by code_simp
  have silent: "observers (fst (connect 4 (fst (beget Undefined 3 connected_world))))
                  = observers (fst (beget Undefined 3 connected_world))"
    by code_simp
  show ?thesis using flipped other born silent by blast
qed

text \<open>
  Claim C9, as amended. \<^verbatim>\<open>connect\<close> on a connected binding and
  \<^verbatim>\<open>disconnect\<close> on a binding that is not connected change nothing and
  return the binding. Among the steps of \<open>run_op\<close>, the connected flag of an
  existing binding \<open>b\<close> goes from false to true only by a \<^verbatim>\<open>connect\<close>
  on \<open>b\<close> itself or on a binding of its prototype chain (a template it was derived
  from), and from true to false only by a \<^verbatim>\<open>disconnect\<close> on \<open>b\<close> or
  on a binding of its prototype chain. A binding derived from an existing binding
  starts with the flag of that binding.
\<close>

theorem connected_changes_only_through_chain:
  "(connected w b \<longrightarrow> connect b w = (w, b))
   \<and> (\<not> connected w b \<longrightarrow> disconnect b w = (w, b))
   \<and> (b < length (heap w) \<and> \<not> connected w b \<and> connected (run_op step w) b \<longrightarrow>
        (\<exists>c. step = OpConnect c \<and> c \<in> set (proto_chain (heap w) b)))
   \<and> (b < length (heap w) \<and> connected w b \<and> \<not> connected (run_op step w) b \<longrightarrow>
        (\<exists>c. step = OpDisconnect c \<and> c \<in> set (proto_chain (heap w) b)))
   \<and> (t < length (heap w) \<longrightarrow>
        snd (beget Undefined t w) = Inr (length (heap w))
        \<and> connected (fst (beget Undefined t w)) (length (heap w)) = connected w t)"
proof -
  have idem1: "connected w b \<longrightarrow> connect b w = (w, b)"
    by (simp add: connected_def connect_def)
  have idem2: "\<not> connected w b \<longrightarrow> disconnect b w = (w, b)"
    by (simp add: connected_def disconnect_def)
  have same: "connected (run_op step w) b = connected w b"
    if "b < length (heap w)" "\<forall>c. step \<noteq> OpConnect c" "\<forall>c. step \<noteq> OpDisconnect c"
    using that
    by (cases step)
       (simp_all add: connected_def beget_keeps from_keeps to_keeps oneWay_def noError_def
          flag_helper_keeps transform_keeps resetTransforms_keeps single_keeps changed_keeps
          computeBindingTargets_keeps)
  have up: "\<exists>c. step = OpConnect c \<and> c \<in> set (proto_chain (heap w) b)"
    if "b < length (heap w)" "\<not> connected w b" "connected (run_op step w) b"
  proof (cases "\<exists>c. step = OpConnect c")
    case True
    then obtain c where c: "step = OpConnect c" by blast
    have "c \<in> set (proto_chain (heap w) b)"
    proof (rule ccontr)
      assume "c \<notin> set (proto_chain (heap w) b)"
      from connect_off_chain[OF this] show False using that c by simp
    qed
    then show ?thesis using c by blast
  next
    case False
    show ?thesis
    proof (cases "\<exists>c. step = OpDisconnect c")
      case True
      then show ?thesis using that disconnect_never_connects by auto
    next
      case nd: False
      then show ?thesis using same[OF that(1)] False that by auto
    qed
  qed
  have down: "\<exists>c. step = OpDisconnect c \<and> c \<in> set (proto_chain (heap w) b)"
    if "b < length (heap w)" "connected w b" "\<not> connected (run_op step w) b"
  proof (cases "\<exists>c. step = OpDisconnect c")
    case True
    then obtain c where c: "step = OpDisconnect c" by blast
    have "c \<in> set (proto_chain (heap w) b)"
    proof (rule ccontr)
      assume "c \<notin> set (proto_chain (heap w) b)"
      from disconnect_off_chain[OF this] show False using that c by simp
    qed
    then show ?thesis using c by blast
  next
    case False
    show ?thesis
    proof (cases "\<exists>c. step = OpConnect c")
      case True
      then show ?thesis using that connect_never_disconnects by auto
    next
      case nc: False
      then show ?thesis using same[OF that(1)] False that by auto
    qed
  qed
  have born: "t < length (heap w) \<longrightarrow>
        snd (beget Undefined t w) = Inr (length (heap w))
        \<and> connected (fst (beget Undefined t w)) (length (heap w)) = connected w t"
    using born_with_template_flag[of t w] by blast
  show ?thesis using idem1 idem2 up down born by blast
qed

theorem connected_changes_only_through_chain_witness:
  "connected connected_world 3 \<and> connect 3 connected_world = (connected_world, 3)
   \<and> \<not> connected unconnected_world 3 \<and> disconnect 3 unconnected_world = (unconnected_world, 3)
   \<and> 4 < length (heap derived_world) \<and> \<not> connected derived_world 4
   \<and> connected (run_op (OpConnect 3) derived_world) 4
   \<and> (\<exists>c. OpConnect 3 = OpConnect c \<and> c \<in> set (proto_chain (heap derived_world) 4))
   \<and> proto_chain (heap derived_world) 4 = [4, 3, 0]
   \<and> 3 < length (heap connected_world)
   \<and> \<not> connected (run_op (OpDisconnect 3) connected_world) 3
   \<and> (\<exists>c. OpDisconnect 3 = OpDisconnect c \<and> c \<in> set (proto_chain (heap connected_world) 3))
   \<and> snd (beget Undefined 3 connected_world) = Inr (length (heap connected_world))
   \<and> connected (fst (beget Undefined 3 connected_world)) (length (heap connected_world))
       = connected connected_world 3"
proof -
  have c: "connected connected_world 3" by code_simp
  have u: "\<not> connected unconnected_world 3" by code_simp
  have l: "4 < length (heap derived_world)" "3 < length (heap connected_world)" by code_simp+
  have d: "\<not> connected derived_world 4" by code_simp
  have up: "connected (run_op (OpConnect 3) derived_world) 4" by code_simp
  have down: "\<not> connected (run_op (OpDisconnect 3) connected_world) 3" by code_simp
  have ch: "proto_chain (heap derived_world) 4 = [4, 3, 0]" by code_simp
  note i1 = connected_changes_only_through_chain[of connected_world 3 "OpDisconnect 3" 3]
  note i2 = connected_changes_only_through_chain[of derived_world 4 "OpConnect 3" 3]
  note i3 = connected_changes_only_through_chain[of unconnected_world 3 "OpConnect 3" 3]
  have a: "connect 3 connected_world = (connected_world, 3)"
    "\<exists>c. OpDisconnect 3 = OpDisconnect c \<and> c \<in> set (proto_chain (heap connected_world) 3)"
    "snd (beget Undefined 3 connected_world) = Inr (length (heap connected_world))"
    "connected (fst (beget Undefined 3 connected_world)) (length (heap connected_world))
       = connected connected_world 3"
    using i1 c l down by blast+
  have b: "\<exists>c. OpConnect 3 = OpConnect c \<and> c \<in> set (proto_chain (heap derived_world) 4)"
    using i2 d l up by blast
  have e: "disconnect 3 unconnected_world = (unconnected_world, 3)"
    using i3 u by blast
  show ?thesis using c u l d up down ch a b e by blast
qed

section \<open>Properties of the flush\<close>




lemma queues_unique:
  "queues w qa qb xs ys \<Longrightarrow> queues w qa' qb' xs' ys' \<Longrightarrow> qa' = qa \<and> qb' = qb \<and> xs' = xs \<and> ys' = ys"
  by (auto simp: queues_def)






















































section \<open>Properties of applyBindingValue\<close>

lemma elements_falsy: "\<not> truthy t \<Longrightarrow> elements h t = []"
  by (cases t) (simp_all add: elements_def array_of_def)

lemma elements_kept:
  assumes "\<forall>t i v b w xs. array_of (heap w) t = Some xs \<longrightarrow>
             array_of (heap (fst (user i v b w))) t = Some xs"
    and "elements (heap w) t = xs" "xs \<noteq> []"
  shows "elements (heap (fst (user i v b w))) t = xs"
proof (cases "array_of (heap w) t")
  case (Some ys)
  then have "array_of (heap (fst (user i v b w))) t = Some ys" using assms(1) by blast
  then show ?thesis using Some assms(2) by (simp add: elements_def)
next
  case None
  then obtain s where "t = JStr s"
    using assms(2,3) by (cases t) (auto simp: elements_def)
  then show ?thesis using assms(2) by (simp add: elements_def array_of_def)
qed

lemma call_transform_elements:
  assumes "\<forall>t i v b w xs. array_of (heap w) t = Some xs \<longrightarrow>
             array_of (heap (fst (user i v b w))) t = Some xs"
    and "elements (heap w) t = xs" "xs \<noteq> []"
  shows "elements (heap (fst (call_transform user f v b w))) t = xs"
  using elements_kept[OF assms] assms(2)
  by (cases f) (simp_all add: call_transform_def split_def Let_def)

lemma transform_loop_pipeline:
  assumes "\<forall>t i v b w xs. array_of (heap w) t = Some xs \<longrightarrow>
             array_of (heap (fst (user i v b w))) t = Some xs"
  shows "elements (heap w) t = xs \<Longrightarrow> idx \<le> length xs \<Longrightarrow>
         transform_loop user t this (length xs) idx v w = spec_pipeline user (drop idx xs) this v w"
proof (induction "length xs - idx" arbitrary: idx v w)
  case 0
  then show ?case by (subst transform_loop.simps) simp
next
  case (Suc n)
  then have lt: "idx < length xs" by simp
  then have ne: "xs \<noteq> []" by auto
  have ix: "js_index (heap w) t idx = xs ! idx" using Suc.prems(1) lt by (simp add: js_index_def)
  have dr: "drop idx xs = xs ! idx # drop (Suc idx) xs" using lt by (simp add: Cons_nth_drop_Suc)
  obtain w1 r where c: "call_transform user (xs ! idx) v this w = (w1, r)"
    by (cases "call_transform user (xs ! idx) v this w")
  have e1: "elements (heap w1) t = xs"
    using call_transform_elements[OF assms Suc.prems(1) ne, of "xs ! idx" v this] c by simp
  show ?case
  proof (cases r)
    case (Inl e)
    then show ?thesis using lt ix dr c by (subst transform_loop.simps) simp
  next
    case (Inr v1)
    have "transform_loop user t this (length xs) (Suc idx) v1 w1
            = spec_pipeline user (drop (Suc idx) xs) this v1 w1"
      using Suc.hyps(1)[of "Suc idx" w1 v1] Suc.hyps(2) e1 lt by simp
    then show ?thesis using lt ix dr c Inr by (subst transform_loop.simps) simp
  qed
qed

text \<open>
  Claim C5. For every binding, state and collaborators, where the caller-supplied
  transform functions leave existing arrays as they are: \<^verbatim>\<open>applyBindingValue\<close>
  does what the four steps say, in their order, and makes the same calls in the same
  order. It writes the raw pending value back to the from-endpoint when the binding
  is not one-way and the from-target is resolved; it then passes the value through
  the transforms from first to last; it replaces an error by null when errors are
  suppressed; and it writes the result to the to-endpoint when the to-target is
  resolved. (A pipeline entry that is not a function ends both with the same
  exception.)
\<close>

theorem applyBindingValue_follows_steps:
  assumes "\<forall>t i v b w xs. array_of (heap w) t = Some xs \<longrightarrow>
             array_of (heap (fst (user i v b w))) t = Some xs"
  shows "applyBindingValue resolve set_if_changed user b w
           = spec_applyBindingValue resolve set_if_changed user b w"
proof -
  have loop: "(if truthy t then transform_loop user t b (length (elements (heap w2) t)) 0 v w2
               else (w2, [], Inr v))
              = spec_pipeline user (elements (heap w2) t) b v w2" for t w2 v
  proof (cases "truthy t")
    case True
    then show ?thesis using transform_loop_pipeline[OF assms, of w2 t "elements (heap w2) t" 0 b v] by simp
  next
    case False
    then show ?thesis by (simp add: elements_falsy)
  qed
  define w1 where "w1 = computeBindingTargets resolve b w"
  define v where "v = getp w1 b ''_bindingValue''"
  define w2 where "w2 = fst (spec_write_back set_if_changed b v w1)"
  define cs1 where "cs1 = snd (spec_write_back set_if_changed b v w1)"
  define t where "t = getp w2 b ''_transforms''"
  obtain w3 cs2 r where pl: "spec_pipeline user (elements (heap w2) t) b v w2 = (w3, cs2, r)"
    by (cases "spec_pipeline user (elements (heap w2) t) b v w2")
  have lp: "(if truthy t then transform_loop user t b (length (elements (heap w2) t)) 0 v w2
             else (w2, [], Inr v)) = (w3, cs2, r)"
    using loop[of t w2 v] pl by simp
  have wb: "(if \<not> truthy (getp w1 b ''_oneWay'') \<and> truthy (getp w1 b ''_fromTarget'') then
               (set_if_changed (getp w1 b ''_fromTarget'') (getp w1 b ''_fromPropertyKey'') v w1,
                [SetPathIfChanged (getp w1 b ''_fromTarget'') (getp w1 b ''_fromPropertyKey'') v])
             else (w1, [])) = (w2, cs1)"
    by (simp add: w2_def cs1_def spec_write_back_def)
  have wb': "spec_write_back set_if_changed b v w1 = (w2, cs1)"
    by (simp add: w2_def cs1_def)
  have code: "applyBindingValue resolve set_if_changed user b w =
     (case r of
        Inl e \<Rightarrow> (w3, cs1 @ cs2, Inl e)
      | Inr v1 \<Rightarrow>
          (if truthy (getp w3 b ''_toTarget'') then
             (set_if_changed (getp w3 b ''_toTarget'') (getp w3 b ''_toPropertyKey'')
                (if truthy (getp w3 b ''_noError'') \<and> is_error v1 then Null else v1) w3,
              cs1 @ cs2 @ [SetPathIfChanged (getp w3 b ''_toTarget'') (getp w3 b ''_toPropertyKey'')
                (if truthy (getp w3 b ''_noError'') \<and> is_error v1 then Null else v1)],
              Inr ())
           else (w3, cs1 @ cs2, Inr ())))"
    apply (simp only: applyBindingValue_def Let_def)
    apply (simp only: w1_def[symmetric])
    apply (simp only: v_def[symmetric])
    apply (simp only: wb prod.case)
    apply (simp only: t_def[symmetric])
    apply (simp only: lp prod.case)
    done
  have spec: "spec_applyBindingValue resolve set_if_changed user b w =
     (case r of
        Inl e \<Rightarrow> (w3, cs1 @ cs2, Inl e)
      | Inr v1 \<Rightarrow>
          (case spec_write_to set_if_changed b (spec_suppress b v1 w3) w3 of
             (w4, cs3) \<Rightarrow> (w4, cs1 @ cs2 @ cs3, Inr ())))"
    apply (simp only: spec_applyBindingValue_def Let_def)
    apply (simp only: w1_def[symmetric])
    apply (simp only: v_def[symmetric])
    apply (simp only: wb' prod.case)
    apply (simp only: t_def[symmetric])
    apply (simp only: pl prod.case)
    done
  show ?thesis
    unfolding code spec
    by (cases r) (simp_all add: spec_write_to_def spec_suppress_def Let_def)
qed

lemma array_of_setp: "array_of (heap (setp a k v w)) t = array_of (heap w) t"
proof (cases t)
  case (Ref x)
  show ?thesis
  proof (cases "a = x")
    case True
    then show ?thesis
      using Ref by (simp add: array_of_def setp_def cell_at_put_prop_same split: option.splits cell.splits)
  next
    case False
    then show ?thesis
      using Ref by (simp add: array_of_def setp_def cell_at_put_prop_other)
  qed
qed (simp_all add: array_of_def)

lemma example_user_keeps_arrays:
  "\<forall>t i v b w xs. array_of (heap w) t = Some xs \<longrightarrow>
     array_of (heap (fst (example_user i v b w))) t = Some xs"
  by (simp add: example_user_def array_of_setp)

theorem applyBindingValue_follows_steps_witness:
  "applyBindingValue example_resolver example_writer example_user 3 apply_world
     = spec_applyBindingValue example_resolver example_writer example_user 3 apply_world
   \<and> snd (spec_applyBindingValue example_resolver example_writer example_user 3 apply_world)
     = ([SetPathIfChanged (Ref 5) (JStr ''p'') (JNum 41),
         TransformCall (UserFn 0) (JNum 41),
         TransformCall (SingleFn SC_MULTIPLE_PLACEHOLDER) (JNum 42),
         SetPathIfChanged (Ref 6) (JStr ''q'') (JNum 42)], Inr ())
   \<and> getp (fst (spec_applyBindingValue example_resolver example_writer example_user 3 apply_world)) 5 ''p'' = JNum 41
   \<and> getp (fst (spec_applyBindingValue example_resolver example_writer example_user 3 apply_world)) 6 ''q'' = JNum 42"
proof -
  have run: "snd (applyBindingValue example_resolver example_writer example_user 3 apply_world)
     = ([SetPathIfChanged (Ref 5) (JStr ''p'') (JNum 41),
         TransformCall (UserFn 0) (JNum 41),
         TransformCall (SingleFn SC_MULTIPLE_PLACEHOLDER) (JNum 42),
         SetPathIfChanged (Ref 6) (JStr ''q'') (JNum 42)], Inr ())"
    by code_simp
  have p: "getp (fst (applyBindingValue example_resolver example_writer example_user 3 apply_world)) 5 ''p'' = JNum 41"
    by code_simp
  have q: "getp (fst (applyBindingValue example_resolver example_writer example_user 3 apply_world)) 6 ''q'' = JNum 42"
    by code_simp
  show ?thesis
    using applyBindingValue_follows_steps[OF example_user_keeps_arrays, of example_resolver example_writer 3 apply_world] run p q
    by simp
qed

end
